theory Spec2Isabelle
  imports Main "HOL-Library.Word" "HOL-Library.Sublist"
begin

section \<open>The native language identifier (language\_id\_l2c\_jni.cpp)\<close>

text \<open>
  The source file holds four JNI entry points of the class
  \<open>com.example.app.language.LanguageIdentifier\<close>: \<open>nativeInitialize\<close>,
  \<open>nativeDetectLanguage\<close>, \<open>nativeRelease\<close> and \<open>nativeGetVersion\<close>. The
  definitions below keep these short names.
\<close>

subsection \<open>C data: characters, strings, handles\<close>

text \<open>
  A C \<open>char\<close> is one byte. A \<open>const char *\<close> is modelled by the list of the characters
  in front of its terminating NUL, which is also the value of the \<open>std::string\<close> built
  from it. A \<open>jlong\<close> is a 64-bit integer, an \<open>int\<close> a 32-bit one.
\<close>

type_synonym cchar = "8 word"
type_synonym cstring = "cchar list"
type_synonym jlong = "64 word"

text \<open>A string literal of the source, as its characters.\<close>

definition cstr :: "string \<Rightarrow> cstring" where
  "cstr s = map of_char s"

text \<open>
  Whether plain \<open>char\<close> is signed depends on the ABI the library is built for (signed on
  x86, unsigned on ARM). The flag \<open>char_is_signed\<close> is a parameter of the model;
  \<open>char_to_int\<close> is the integral promotion of a \<open>char\<close>, \<open>int_to_char\<close> the
  conversion back when \<open>std::transform\<close> stores the \<open>int\<close> result of \<open>::tolower\<close>.
\<close>

definition char_to_int :: "bool \<Rightarrow> cchar \<Rightarrow> int" where
  "char_to_int char_is_signed c = (if char_is_signed then sint c else uint c)"

definition int_to_char :: "int \<Rightarrow> cchar" where
  "int_to_char i = word_of_int i"

text \<open>
  \<open>::tolower\<close> of the C library in the "C" locale (the spec: lower-casing is
  locale-insensitive, for ASCII letters only, every other value passes through).
\<close>

definition tolower :: "int \<Rightarrow> int" where
  "tolower c = (if 65 \<le> c \<and> c \<le> 90 then c + 32 else c)"

text \<open>\<open>std::transform(textStr.begin(), textStr.end(), textStr.begin(), ::tolower)\<close>\<close>

definition transform_tolower :: "bool \<Rightarrow> cstring \<Rightarrow> cstring" where
  "transform_tolower char_is_signed textStr =
     map (\<lambda>c. int_to_char (tolower (char_to_int char_is_signed c))) textStr"

text \<open>
  \<open>std::string::find(pattern)\<close>: the least position at which the pattern occurs,
  \<open>None\<close> for \<open>std::string::npos\<close>.
\<close>

fun find_from :: "cstring \<Rightarrow> cstring \<Rightarrow> nat \<Rightarrow> nat option" where
  "find_from [] pattern pos = (if pattern = [] then Some pos else None)"
| "find_from (c # cs) pattern pos =
     (if prefix pattern (c # cs) then Some pos else find_from cs pattern (Suc pos))"

definition string_find :: "cstring \<Rightarrow> cstring \<Rightarrow> nat option" where
  "string_find textStr pattern = find_from textStr pattern 0"

abbreviation npos :: "nat option" where
  "npos \<equiv> None"

text \<open>The test \<open>textStr.find(" kw ") != std::string::npos\<close> on a literal of the source.\<close>

definition found :: "cstring \<Rightarrow> string \<Rightarrow> bool" where
  "found textStr literal \<longleftrightarrow> string_find textStr (cstr literal) \<noteq> npos"

subsection \<open>The environment: JNI strings and the Android log\<close>

text \<open>
  A \<open>jstring\<close> is a reference, \<open>None\<close> for \<open>nullptr\<close>. The JNI environment is not
  part of the source and is a parameter of the model: \<open>GetStringUTFChars env s\<close> is what
  \<open>env->GetStringUTFChars(s, nullptr)\<close> answers, the characters of the string (in
  modified UTF-8) or \<open>nullptr\<close> (\<open>None\<close>). Nothing is assumed about the answer, also
  not for a null reference, which \<open>nativeInitialize\<close> passes on unchecked. The value
  a function returns through \<open>NewStringUTF\<close> is modelled by the C string handed to
  \<open>NewStringUTF\<close>. \<open>ReleaseStringUTFChars\<close> gives the buffer back and has no part in
  any result, so it does not appear.
\<close>

record 'j JNIEnv =
  GetStringUTFChars :: "'j option \<Rightarrow> cstring option"

text \<open>
  The only state outside a call is the Android log, to which \<open>LOGI\<close> appends a record
  (format string and arguments) of priority \<open>ANDROID_LOG_INFO\<close> under \<open>LOG_TAG\<close>.
\<close>

datatype log_arg = StringArg cstring | LongLongArg int

datatype log_record = Info string "log_arg list"

type_synonym logcat = "log_record list"

definition LOGI :: "string \<Rightarrow> log_arg list \<Rightarrow> logcat \<Rightarrow> logcat" where
  "LOGI fmt args log = log @ [Info fmt args]"

subsection \<open>nativeInitialize, nativeGetVersion, nativeRelease\<close>

definition nativeInitialize :: "'j JNIEnv \<Rightarrow> 'j option \<Rightarrow> logcat \<Rightarrow> cstring \<times> logcat" where
  "nativeInitialize env modelPath log =
     (case GetStringUTFChars env modelPath of
        None \<Rightarrow> (cstr '''', log)
      | Some path \<Rightarrow>
          (cstr ''1.2.0'', LOGI ''Initializing with model path: %s'' [StringArg path] log))"

definition nativeGetVersion :: "cstring" where
  "nativeGetVersion = cstr ''1.2.0''"

definition nativeRelease :: "jlong \<Rightarrow> logcat \<Rightarrow> logcat" where
  "nativeRelease handle log =
     (if handle \<noteq> 0
      then LOGI ''Language identifier resources cleaned up for handle: %lld (Placeholder - no specific resources allocated)''
             [LongLongArg (sint handle)] log
      else log)"

subsection \<open>nativeDetectLanguage\<close>

text \<open>The conditions of the five branches of the keyword cascade (lines 81 to 136).\<close>

definition spanish_keywords :: "cstring \<Rightarrow> bool" where
  "spanish_keywords textStr \<longleftrightarrow>
     found textStr '' el '' \<or> found textStr '' la '' \<or> found textStr '' de '' \<or>
     found textStr '' que '' \<or> found textStr '' es '' \<or> found textStr '' con '' \<or>
     found textStr '' y '' \<or> found textStr '' en '' \<or> found textStr '' un '' \<or>
     found textStr '' una ''"

definition french_keywords :: "cstring \<Rightarrow> bool" where
  "french_keywords textStr \<longleftrightarrow>
     found textStr '' le '' \<or> found textStr '' la '' \<or> found textStr '' et '' \<or>
     found textStr '' ce '' \<or> found textStr '' qui '' \<or> found textStr '' avec '' \<or>
     found textStr '' est '' \<or> found textStr '' dans '' \<or> found textStr '' pour '' \<or>
     found textStr '' un ''"

definition german_keywords :: "cstring \<Rightarrow> bool" where
  "german_keywords textStr \<longleftrightarrow>
     found textStr '' und '' \<or> found textStr '' der '' \<or> found textStr '' die '' \<or>
     found textStr '' das '' \<or> found textStr '' mit '' \<or> found textStr '' ist '' \<or>
     found textStr '' ein '' \<or> found textStr '' eine '' \<or> found textStr '' auf '' \<or>
     found textStr '' von ''"

definition italian_keywords :: "cstring \<Rightarrow> bool" where
  "italian_keywords textStr \<longleftrightarrow>
     found textStr '' il '' \<or> found textStr '' che '' \<or> found textStr '' con '' \<or>
     found textStr '' per '' \<or> found textStr '' sono '' \<or> found textStr '' e '' \<or>
     found textStr '' in '' \<or> found textStr '' un '' \<or> found textStr '' una '' \<or>
     found textStr '' non ''"

definition portuguese_keywords :: "cstring \<Rightarrow> bool" where
  "portuguese_keywords textStr \<longleftrightarrow>
     found textStr '' o '' \<or> found textStr '' a '' \<or> found textStr '' que '' \<or>
     found textStr '' para '' \<or> found textStr '' com '' \<or> found textStr '' e '' \<or>
     found textStr '' em '' \<or> found textStr '' um '' \<or> found textStr '' uma '' \<or>
     found textStr '' de ''"

text \<open>The cascade itself: \<open>result\<close> starts as \<open>"en"\<close> and the first branch taken sets it.\<close>

definition keyword_cascade :: "cstring \<Rightarrow> cstring" where
  "keyword_cascade textStr =
     (if spanish_keywords textStr then cstr ''es''
      else if french_keywords textStr then cstr ''fr''
      else if german_keywords textStr then cstr ''de''
      else if italian_keywords textStr then cstr ''it''
      else if portuguese_keywords textStr then cstr ''pt''
      else cstr ''en'')"

text \<open>
  The counting loop (lines 140 to 145). \<open>accentCount\<close> is an \<open>int\<close>, 32 bits wide on
  every Android ABI. C++ leaves the overflow of \<open>accentCount++\<close> undefined; the model
  gives it the wrap-around of the machine addition, and a theorem that depends on the
  count says that it stays below \<open>2^31\<close>.
\<close>

definition non_ascii :: "bool \<Rightarrow> cchar \<Rightarrow> bool" where
  "non_ascii char_is_signed c \<longleftrightarrow>
     char_to_int char_is_signed c < 0 \<or> char_to_int char_is_signed c > 127"

definition count_accents :: "bool \<Rightarrow> cstring \<Rightarrow> 32 word" where
  "count_accents char_is_signed textStr =
     foldl (\<lambda>accentCount c. if non_ascii char_is_signed c then accentCount + 1 else accentCount)
       0 textStr"

text \<open>
  The comparison \<open>accentCount > textStr.length() * 0.1\<close> (line 149) is one of
  \<open>double\<close> values, computed in IEEE 754 binary64 with rounding to nearest, ties to
  even:
  \<^item> \<open>textStr.length()\<close>, a \<open>size_t\<close>, is converted to \<open>double\<close>: \<open>round_double len\<close>,
    which is \<open>len\<close> itself below \<open>2^53\<close>;
  \<^item> the literal \<open>0.1\<close> is the \<open>double\<close> nearest to one tenth,
    \<open>3602879701896397 / 2^55\<close>;
  \<^item> the product is rounded once. Rounding to 53 significant bits commutes with the
    scaling by \<open>2^55\<close> (the values are finite and far from the subnormal range), so the
    product is \<open>length_times_tenth len / 2^55\<close>;
  \<^item> \<open>accentCount\<close>, an \<open>int\<close>, is converted to \<open>double\<close> exactly.

  \<open>round_double p\<close> is the natural number nearest to \<open>p\<close> among those with at most
  53 significant bits: with \<open>s\<close> the number of bits beyond 53, \<open>p\<close> lies between the
  neighbours \<open>q * 2^s\<close> and \<open>(q + 1) * 2^s\<close>, and goes up when it is past the middle,
  or in the middle with \<open>q\<close> odd.
\<close>

fun bit_length :: "nat \<Rightarrow> nat" where
  "bit_length n = (if n = 0 then 0 else Suc (bit_length (n div 2)))"

declare bit_length.simps [simp del]

definition round_double :: "nat \<Rightarrow> nat" where
  "round_double p =
     (let s = bit_length p - 53; q = p div 2 ^ s; r = p mod 2 ^ s
      in if 2 ^ s < 2 * r \<or> (2 * r = 2 ^ s \<and> odd q) then (q + 1) * 2 ^ s else q * 2 ^ s)"

definition length_times_tenth :: "nat \<Rightarrow> nat" where
  "length_times_tenth len = round_double (round_double len * 3602879701896397)"

definition exceeds_tenth :: "32 word \<Rightarrow> nat \<Rightarrow> bool" where
  "exceeds_tenth accentCount len \<longleftrightarrow> int (length_times_tenth len) < sint accentCount * 2 ^ 55"

definition nativeDetectLanguage ::
  "bool \<Rightarrow> 'j JNIEnv \<Rightarrow> jlong \<Rightarrow> 'j option \<Rightarrow> logcat \<Rightarrow> cstring \<times> logcat" where
  "nativeDetectLanguage char_is_signed env handle text log =
     (if text = None then (cstr ''und'', log)
      else case GetStringUTFChars env text of
        None \<Rightarrow> (cstr ''und'', log)
      | Some nativeText \<Rightarrow>
          (let log' = LOGI ''Detecting language for text: %s'' [StringArg nativeText] log;
               textStr = transform_tolower char_is_signed nativeText;
               result = keyword_cascade textStr;
               accentCount = count_accents char_is_signed textStr
           in (if exceeds_tenth accentCount (length textStr) \<and> result = cstr ''en''
               then cstr ''mul'' else result,
               log')))"

subsection \<open>The specification's reading of the cascade\<close>

text \<open>
  The specification describes the cascade as an ordered table of languages, each with a
  list of keywords, searched by a "first match wins" loop for the pattern
  \<open>" keyword "\<close>. These definitions follow the specification's words; the theorems
  below compare them with \<open>keyword_cascade\<close>.
\<close>

definition spec_keyword_table :: "(string \<times> string list) list" where
  "spec_keyword_table =
     [(''es'', [''el'', ''la'', ''de'', ''que'', ''es'', ''con'', ''y'', ''en'', ''un'', ''una'']),
      (''fr'', [''le'', ''la'', ''et'', ''ce'', ''qui'', ''avec'', ''est'', ''dans'', ''pour'', ''un'']),
      (''de'', [''und'', ''der'', ''die'', ''das'', ''mit'', ''ist'', ''ein'', ''eine'', ''auf'', ''von'']),
      (''it'', [''il'', ''che'', ''con'', ''per'', ''sono'', ''e'', ''in'', ''un'', ''una'', ''non'']),
      (''pt'', [''o'', ''a'', ''que'', ''para'', ''com'', ''e'', ''em'', ''um'', ''uma'', ''de''])]"

text \<open>A keyword occurs space-delimited: a space, the keyword, a space, contiguously.\<close>

definition space_delimited :: "string \<Rightarrow> cstring \<Rightarrow> bool" where
  "space_delimited kw textStr \<longleftrightarrow> sublist ([32] @ cstr kw @ [32]) textStr"

definition spec_language_matches :: "string list \<Rightarrow> cstring \<Rightarrow> bool" where
  "spec_language_matches kws textStr \<longleftrightarrow> list_ex (\<lambda>kw. space_delimited kw textStr) kws"

fun spec_first_match :: "(string \<times> string list) list \<Rightarrow> cstring \<Rightarrow> string option" where
  "spec_first_match [] textStr = None"
| "spec_first_match ((code, kws) # table) textStr =
     (if spec_language_matches kws textStr then Some code else spec_first_match table textStr)"

text \<open>The keyword list of one language of the table.\<close>

definition spec_keywords_for :: "string \<Rightarrow> string list" where
  "spec_keywords_for code =
     (case map_of spec_keyword_table code of Some kws \<Rightarrow> kws | None \<Rightarrow> [])"

text \<open>
  Two characters that differ at most in the case of an ASCII letter: equal, or one is an
  upper-case letter \<open>A\<close> to \<open>Z\<close> and the other the same letter in lower case.
\<close>

definition is_upper :: "cchar \<Rightarrow> bool" where
  "is_upper c \<longleftrightarrow> 65 \<le> c \<and> c \<le> 90"

definition same_up_to_case :: "cchar \<Rightarrow> cchar \<Rightarrow> bool" where
  "same_up_to_case a b \<longleftrightarrow> a = b \<or> (is_upper a \<and> b = a + 32) \<or> (is_upper b \<and> a = b + 32)"

text \<open>The number of code units outside the range 0 to 127.\<close>

definition non_ascii_count :: "cstring \<Rightarrow> nat" where
  "non_ascii_count textStr = length (filter (\<lambda>c. 127 < unat c) textStr)"

text \<open>
  The characters of a Java string of \<open>2^30\<close> letters \<open>U+00E9\<close>: the two bytes of the
  letter in modified UTF-8, \<open>2^30\<close> times, so \<open>2^31\<close> code units, all non-ASCII.
\<close>

definition overflow_text :: cstring where
  "overflow_text = concat (replicate (2 ^ 30) [195, 169])"

subsection \<open>Two concrete environments\<close>

text \<open>
  In \<open>string_env\<close> a string reference is identified with its characters and
  \<open>GetStringUTFChars\<close> always delivers them; in \<open>failing_env\<close> it never does.
\<close>

definition string_env :: "cstring JNIEnv" where
  "string_env = \<lparr>GetStringUTFChars = (\<lambda>s. s)\<rparr>"

definition failing_env :: "cstring JNIEnv" where
  "failing_env = \<lparr>GetStringUTFChars = (\<lambda>s. None)\<rparr>"

section \<open>Properties\<close>

subsection \<open>Searching\<close>

lemma find_from_None_iff: "find_from s pat pos = None \<longleftrightarrow> \<not> sublist pat s"
  by (induction s arbitrary: pos) (auto simp: sublist_Cons_right)

lemma found_iff_sublist: "found s lit \<longleftrightarrow> sublist (cstr lit) s"
  by (simp add: found_def string_find_def find_from_None_iff)

lemma found_iff_occurs: "found s lit \<longleftrightarrow> (\<exists>pre post. s = pre @ cstr lit @ post)"
  by (simp add: found_iff_sublist sublist_def)

lemma found_needs_space:
  assumes "found s lit" "32 \<in> set (cstr lit)"
  shows "32 \<in> set s"
  using assms set_mono_sublist [of "cstr lit" s] by (auto simp: found_iff_sublist)

lemma sublist_map:
  assumes "sublist xs ys"
  shows "sublist (map f xs) (map f ys)"
proof -
  from assms obtain ps ss where "ys = ps @ xs @ ss"
    by (auto simp: sublist_def)
  then have "map f ys = map f ps @ map f xs @ map f ss"
    by simp
  then show ?thesis
    unfolding sublist_def by blast
qed

subsection \<open>Characters\<close>

lemma uint_lt_256: "uint (c::8 word) < 256"
  using uint_lt2p[of c] by simp

lemma sint_8: "sint (c::8 word) = (if uint c < 128 then uint c else uint c - 256)"
proof -
  have a: "- 128 \<le> sint c" using sint_ge[of c] by simp
  have b: "sint c < 128" using sint_lt[of c] by simp
  have "uint c = take_bit 8 (sint c)" using uint_sint[of c] by simp
  then have c: "uint c = sint c mod 256" unfolding take_bit_eq_mod by simp
  show ?thesis
  proof (cases "0 \<le> sint c")
    case True
    then have "uint c = sint c" using b c by simp
    then show ?thesis using b by simp
  next
    case False
    have "(sint c + 256) mod 256 = sint c + 256"
      by (rule mod_pos_pos_trivial) (use a False in simp_all)
    then have "uint c = sint c + 256" using c by simp
    then show ?thesis using False a by simp
  qed
qed

text \<open>On either ABI the test \<open>c < 0 || c > 127\<close> holds exactly of the bytes from 128 on.\<close>

lemma non_ascii_iff: "non_ascii sg c \<longleftrightarrow> 128 \<le> c"
proof -
  have "0 \<le> uint c" "uint c < 256" using uint_lt_256 by simp_all
  then show ?thesis
    by (cases sg) (simp_all add: non_ascii_def char_to_int_def word_le_def sint_8, arith+)
qed

text \<open>On either ABI lower-casing maps \<open>A\<close> to \<open>Z\<close> to \<open>a\<close> to \<open>z\<close> and fixes every other byte.\<close>

lemma lower_char:
  "int_to_char (tolower (char_to_int sg c)) = (if 65 \<le> c \<and> c \<le> 90 then c + 32 else c)"
proof -
  have "0 \<le> uint c" "uint c < 256" using uint_lt_256 by simp_all
  then show ?thesis
    by (cases sg) (simp_all add: int_to_char_def tolower_def char_to_int_def word_le_def sint_8)
qed

lemma transform_tolower_eq:
  "transform_tolower sg s = map (\<lambda>c. if 65 \<le> c \<and> c \<le> 90 then c + 32 else c) s"
  by (simp add: transform_tolower_def lower_char)

lemma length_transform_tolower: "length (transform_tolower sg s) = length s"
  by (simp add: transform_tolower_def)

lemma is_upper_add32: "is_upper (a::8 word) \<Longrightarrow> \<not> is_upper (a + 32)"
  unfolding is_upper_def by unat_arith

lemma lower_same_up_to_case:
  assumes "same_up_to_case a b"
  shows "int_to_char (tolower (char_to_int sg a)) = int_to_char (tolower (char_to_int sg b))"
  using assms is_upper_add32 [of a] is_upper_add32 [of b]
  by (auto simp: same_up_to_case_def lower_char is_upper_def)

lemma transform_tolower_variant:
  "list_all2 same_up_to_case t t' \<Longrightarrow> transform_tolower sg t = transform_tolower sg t'"
  by (induction rule: list_all2_induct) (simp_all add: transform_tolower_def lower_same_up_to_case)

lemma lower_eq_space: "int_to_char (tolower (char_to_int sg c)) = 32 \<longleftrightarrow> c = 32"
  by (auto simp: lower_char)

lemma no_space_lowered:
  assumes "32 \<notin> set t"
  shows "32 \<notin> set (transform_tolower sg t)"
proof
  assume "32 \<in> set (transform_tolower sg t)"
  then obtain c where "c \<in> set t" "int_to_char (tolower (char_to_int sg c)) = 32"
    by (auto simp: transform_tolower_def)
  then show False
    using assms by (simp add: lower_eq_space)
qed

lemma lower_non_ascii:
  "127 < unat (int_to_char (tolower (char_to_int sg c))) \<longleftrightarrow> 127 < unat c"
  unfolding lower_char by unat_arith

subsection \<open>Counting\<close>

lemma foldl_count_accents:
  "foldl (\<lambda>accentCount c. if non_ascii sg c then accentCount + 1 else accentCount) a s
     = a + of_nat (length (filter (\<lambda>c. 128 \<le> c) s))"
  by (induction s arbitrary: a) (simp_all add: non_ascii_iff add.assoc)

lemma count_accents_eq:
  "count_accents sg s = of_nat (length (filter (\<lambda>c. 128 \<le> c) s))"
  by (simp add: count_accents_def foldl_count_accents)

lemma count_accents_non_ascii_count: "count_accents sg s = of_nat (non_ascii_count s)"
proof -
  have "(128 \<le> c) = (127 < unat c)" for c :: cchar
    by (simp add: word_le_nat_alt, arith)
  then show ?thesis
    by (simp add: count_accents_eq non_ascii_count_def)
qed

lemma non_ascii_count_lowered: "non_ascii_count (transform_tolower sg t) = non_ascii_count t"
  by (induction t) (simp_all add: non_ascii_count_def transform_tolower_def lower_non_ascii)

lemma non_ascii_count_le: "non_ascii_count s \<le> length s"
  by (simp add: non_ascii_count_def)

subsection \<open>Rounding to double precision\<close>

lemma bit_length_0: "bit_length 0 = 0"
  by (simp add: bit_length.simps)

lemma bit_length_pos: "n \<noteq> 0 \<Longrightarrow> bit_length n = Suc (bit_length (n div 2))"
  by (subst bit_length.simps) simp

lemma bit_length_upper: "n < 2 ^ bit_length n"
proof (induction n rule: bit_length.induct)
  case (1 n)
  show ?case
  proof (cases "n = 0")
    case True
    then show ?thesis by (simp add: bit_length_0)
  next
    case False
    from 1 [OF False] have "n div 2 < 2 ^ bit_length (n div 2)" .
    then have "n < 2 * 2 ^ bit_length (n div 2)" by linarith
    then show ?thesis by (simp add: bit_length_pos [OF False])
  qed
qed

lemma bit_length_lower: "n \<noteq> 0 \<Longrightarrow> 2 ^ (bit_length n - 1) \<le> n"
proof (induction n rule: bit_length.induct)
  case (1 n)
  note n = \<open>n \<noteq> 0\<close>
  show ?case
  proof (cases "n div 2 = 0")
    case True
    then show ?thesis using n by (simp add: bit_length_pos [OF n] bit_length_0)
  next
    case False
    from "1.IH" [OF n False] have ih: "2 ^ (bit_length (n div 2) - 1) \<le> n div 2" .
    have "bit_length (n div 2) = Suc (bit_length (n div 2) - 1)"
      by (simp add: bit_length_pos [OF False])
    then have "(2::nat) ^ bit_length (n div 2) = 2 * 2 ^ (bit_length (n div 2) - 1)"
      by (metis power_Suc)
    also have "\<dots> \<le> 2 * (n div 2)" using ih by simp
    also have "\<dots> \<le> n" by simp
    finally show ?thesis by (simp add: bit_length_pos [OF n])
  qed
qed

lemma bit_length_le:
  assumes "n < 2 ^ k"
  shows "bit_length n \<le> k"
proof (cases "n = 0")
  case True
  then show ?thesis by (simp add: bit_length_0)
next
  case False
  have "(2::nat) ^ (bit_length n - 1) < 2 ^ k"
    by (rule le_less_trans [OF bit_length_lower [OF False] assms])
  then have "bit_length n - 1 < k"
    by (rule power_less_imp_less_exp [rotated]) simp
  then show ?thesis by simp
qed

lemma no_double_between:
  fixes p m e :: nat
  defines "s \<equiv> bit_length p - 53"
  defines "q \<equiv> p div 2 ^ s"
  assumes m: "m < 2 ^ 53"
  shows "\<not> (q * 2 ^ s < m * 2 ^ e \<and> m * 2 ^ e < (q + 1) * 2 ^ s)"
proof
  assume H: "q * 2 ^ s < m * 2 ^ e \<and> m * 2 ^ e < (q + 1) * 2 ^ s"
  show False
  proof (cases "s \<le> e")
    case True
    then obtain d where e: "e = s + d"
      using le_Suc_ex by blast
    have "m * 2 ^ e = (m * 2 ^ d) * 2 ^ s"
      by (simp add: e power_add mult_ac)
    with H have "q * 2 ^ s < (m * 2 ^ d) * 2 ^ s" "(m * 2 ^ d) * 2 ^ s < (q + 1) * 2 ^ s"
      by (simp_all only:)
    then have "q < m * 2 ^ d" "m * 2 ^ d < q + 1"
      by (simp_all only: mult_less_cancel2)
    then show False by simp
  next
    case False
    then have es: "e < s" by simp
    then have bl: "bit_length p = s + 53" by (simp add: s_def)
    then have "p \<noteq> 0" by (cases "p = 0") (simp_all add: bit_length_0)
    then have "2 ^ (bit_length p - 1) \<le> p" by (rule bit_length_lower)
    then have "2 ^ 52 * 2 ^ s \<le> p" by (simp add: bl power_add mult_ac)
    then have "(2 ^ 52 * 2 ^ s) div 2 ^ s \<le> p div 2 ^ s" by (rule div_le_mono)
    then have q52: "2 ^ 52 \<le> q" by (simp add: q_def)
    have "m * 2 ^ e < 2 ^ 53 * 2 ^ e" using m by simp
    also have "\<dots> = 2 ^ (53 + e)" by (simp add: power_add)
    also have "\<dots> \<le> 2 ^ (52 + s)" using es by (intro power_increasing) simp_all
    also have "\<dots> = 2 ^ 52 * 2 ^ s" by (simp add: power_add)
    also have "\<dots> \<le> q * 2 ^ s" using q52 by simp
    finally show False using H by simp
  qed
qed

lemma round_double_cases:
  fixes p :: nat
  defines "s \<equiv> bit_length p - 53"
  defines "q \<equiv> p div 2 ^ s"
  shows "q * 2 ^ s \<le> p" and "p < (q + 1) * 2 ^ s"
    and "round_double p = q * 2 ^ s \<or> (round_double p = (q + 1) * 2 ^ s \<and> q * 2 ^ s < p)"
proof -
  define r where "r = p mod 2 ^ s"
  have p: "p = q * 2 ^ s + r"
    unfolding q_def r_def by (rule div_mult_mod_eq [symmetric])
  have r: "r < 2 ^ s" by (simp add: r_def)
  show "q * 2 ^ s \<le> p" using p by simp
  show "p < (q + 1) * 2 ^ s" using p r by simp
  have rd: "round_double p =
      (if 2 ^ s < 2 * r \<or> (2 * r = 2 ^ s \<and> odd q) then (q + 1) * 2 ^ s else q * 2 ^ s)"
    by (simp add: round_double_def Let_def s_def q_def r_def)
  have "0 < r" if "2 ^ s < 2 * r \<or> (2 * r = 2 ^ s \<and> odd q)"
    using that by (cases "r = 0") auto
  then show "round_double p = q * 2 ^ s \<or> (round_double p = (q + 1) * 2 ^ s \<and> q * 2 ^ s < p)"
    using p unfolding rd by auto
qed

lemma round_double_le:
  assumes "m < 2 ^ 53" and "p \<le> m * 2 ^ e"
  shows "round_double p \<le> m * 2 ^ e"
proof -
  define s where "s = bit_length p - 53"
  define q where "q = p div 2 ^ s"
  note c = round_double_cases [of p, folded s_def, folded q_def]
  note n = no_double_between [OF assms(1), of p e, folded s_def, folded q_def]
  from c(3) show ?thesis
  proof
    assume "round_double p = q * 2 ^ s"
    then show ?thesis using c(1) assms(2) by simp
  next
    assume up: "round_double p = (q + 1) * 2 ^ s \<and> q * 2 ^ s < p"
    then have "q * 2 ^ s < m * 2 ^ e" using assms(2) by simp
    with n have "\<not> m * 2 ^ e < (q + 1) * 2 ^ s" by blast
    then show ?thesis using up by simp
  qed
qed

lemma round_double_ge:
  assumes "m < 2 ^ 53" and "m * 2 ^ e \<le> p"
  shows "m * 2 ^ e \<le> round_double p"
proof -
  define s where "s = bit_length p - 53"
  define q where "q = p div 2 ^ s"
  note c = round_double_cases [of p, folded s_def, folded q_def]
  note n = no_double_between [OF assms(1), of p e, folded s_def, folded q_def]
  have low: "q * 2 ^ s \<le> round_double p"
    using c(3) by auto
  have "m * 2 ^ e < (q + 1) * 2 ^ s"
    using assms(2) c(2) by simp
  with n have "m * 2 ^ e \<le> q * 2 ^ s" by auto
  then show ?thesis using low by simp
qed


lemma round_double_small: "n < 2 ^ 53 \<Longrightarrow> round_double n = n"
  using round_double_le [of n n 0] round_double_ge [of n 0 n] by simp

lemma length_times_tenth_less_iff:
  assumes k: "k < 2 ^ 31"
  shows "length_times_tenth n < k * 2 ^ 55 \<longleftrightarrow> n < 10 * k"
proof (cases "n < 2 ^ 35")
  case True
  then have "round_double n = n"
    by (intro round_double_small) simp
  then have ltt: "length_times_tenth n = round_double (n * 3602879701896397)"
    by (simp add: length_times_tenth_def)
  show ?thesis
  proof
    assume less: "length_times_tenth n < k * 2 ^ 55"
    show "n < 10 * k"
    proof (rule ccontr)
      assume "\<not> n < 10 * k"
      then have "k * 2 ^ 55 \<le> n * 3602879701896397" by simp
      moreover have "k < 2 ^ 53" using k by simp
      ultimately have "k * 2 ^ 55 \<le> round_double (n * 3602879701896397)"
        by (intro round_double_ge)
      with less ltt show False by simp
    qed
  next
    assume "n < 10 * k"
    then have "n * 3602879701896397 \<le> (16 * k - 1) * 2 ^ 51"
      using k by simp
    moreover have "16 * k - 1 < 2 ^ 53" using k by simp
    ultimately have "round_double (n * 3602879701896397) \<le> (16 * k - 1) * 2 ^ 51"
      by (intro round_double_le)
    also have "\<dots> < k * 2 ^ 55" using \<open>n < 10 * k\<close> by simp
    finally show "length_times_tenth n < k * 2 ^ 55" by (simp add: ltt)
  qed
next
  case False
  then have big: "\<not> n < 10 * k" using k by simp
  have "1 * 2 ^ 35 \<le> round_double n"
    by (rule round_double_ge) (use False in simp_all)
  then have "2 ^ 35 * 2 ^ 51 \<le> round_double n * 3602879701896397"
    by (intro mult_le_mono) simp_all
  then have "1 * 2 ^ 86 \<le> round_double n * 3602879701896397"
    by simp
  then have "1 * 2 ^ 86 \<le> round_double (round_double n * 3602879701896397)"
    by (intro round_double_ge) simp_all
  then have "2 ^ 86 \<le> length_times_tenth n"
    by (simp add: length_times_tenth_def)
  moreover have "k * 2 ^ 55 < 2 ^ 86" using k by simp
  ultimately show ?thesis using big by simp
qed

lemma sint_of_nat_32:
  assumes "k < 2 ^ 31"
  shows "sint (of_nat k :: 32 word) = int k"
proof -
  have less: "int k < 2 ^ 31"
    using assms by simp
  have "(of_nat k :: 32 word) = word_of_int (int k)"
    by simp
  then have "sint (of_nat k :: 32 word) = signed_take_bit (LENGTH(32) - 1) (int k)"
    by (simp only: sint_sbintrunc')
  also have "\<dots> = int k"
  proof (rule signed_take_bit_int_eq_self)
    show "- (2 ^ (LENGTH(32) - 1)) \<le> int k"
      by (rule order_trans [of _ 0]) simp_all
    show "int k < 2 ^ (LENGTH(32) - 1)"
      using less by simp
  qed
  finally show ?thesis .
qed

lemma exceeds_tenth_iff:
  assumes "k < 2 ^ 31"
  shows "exceeds_tenth (of_nat k) n \<longleftrightarrow> n < 10 * k"
proof -
  have "exceeds_tenth (of_nat k) n \<longleftrightarrow> int (length_times_tenth n) < int (k * 2 ^ 55)"
    by (simp add: exceeds_tenth_def sint_of_nat_32 [OF assms])
  also have "\<dots> \<longleftrightarrow> length_times_tenth n < k * 2 ^ 55"
    by (rule of_nat_less_iff)
  also have "\<dots> \<longleftrightarrow> n < 10 * k"
    by (rule length_times_tenth_less_iff [OF assms])
  finally show ?thesis .
qed
text \<open>
  While \<open>accentCount\<close> has not overflowed, the comparison of doubles decides exactly
  whether the count exceeds one tenth of the length.
\<close>

lemma ratio_test:
  assumes "non_ascii_count s < 2 ^ 31"
  shows "exceeds_tenth (count_accents sg s) (length s) \<longleftrightarrow> length s < 10 * non_ascii_count s"
  unfolding count_accents_non_ascii_count by (rule exceeds_tenth_iff [OF assms])

subsection \<open>The cascade\<close>

lemma cstr_codes_distinct:
  "cstr ''en'' \<noteq> cstr ''es''" "cstr ''en'' \<noteq> cstr ''fr''" "cstr ''en'' \<noteq> cstr ''de''"
  "cstr ''en'' \<noteq> cstr ''it''" "cstr ''en'' \<noteq> cstr ''pt''" "cstr ''en'' \<noteq> cstr ''mul''"
  "cstr ''und'' \<noteq> cstr ''es''" "cstr ''und'' \<noteq> cstr ''fr''" "cstr ''und'' \<noteq> cstr ''de''"
  "cstr ''und'' \<noteq> cstr ''it''" "cstr ''und'' \<noteq> cstr ''pt''" "cstr ''und'' \<noteq> cstr ''en''"
  "cstr ''und'' \<noteq> cstr ''mul''"
  by (simp_all add: cstr_def)

lemma keyword_cascade_cases:
  "keyword_cascade t \<in> {cstr ''es'', cstr ''fr'', cstr ''de'', cstr ''it'', cstr ''pt'', cstr ''en''}"
  by (simp add: keyword_cascade_def)

lemma keywords_spec:
  "spanish_keywords t \<longleftrightarrow> spec_language_matches (spec_keywords_for ''es'') t"
  "french_keywords t \<longleftrightarrow> spec_language_matches (spec_keywords_for ''fr'') t"
  "german_keywords t \<longleftrightarrow> spec_language_matches (spec_keywords_for ''de'') t"
  "italian_keywords t \<longleftrightarrow> spec_language_matches (spec_keywords_for ''it'') t"
  "portuguese_keywords t \<longleftrightarrow> spec_language_matches (spec_keywords_for ''pt'') t"
  by (simp_all add: spanish_keywords_def french_keywords_def german_keywords_def
      italian_keywords_def portuguese_keywords_def spec_keywords_for_def spec_keyword_table_def
      spec_language_matches_def space_delimited_def found_iff_sublist cstr_def)

lemma spec_table_rows:
  "spec_keyword_table =
     [(''es'', spec_keywords_for ''es''), (''fr'', spec_keywords_for ''fr''),
      (''de'', spec_keywords_for ''de''), (''it'', spec_keywords_for ''it''),
      (''pt'', spec_keywords_for ''pt'')]"
  by (simp add: spec_keywords_for_def spec_keyword_table_def)

text \<open>The cascade of the code is the table search of the specification.\<close>

lemma keyword_cascade_spec:
  "keyword_cascade t =
     (case spec_first_match spec_keyword_table t of None \<Rightarrow> cstr ''en'' | Some code \<Rightarrow> cstr code)"
  unfolding spec_table_rows by (simp add: keyword_cascade_def keywords_spec)

lemma spec_first_match_code:
  "spec_first_match spec_keyword_table t = Some code \<Longrightarrow>
     code \<in> {''es'', ''fr'', ''de'', ''it'', ''pt''}"
  unfolding spec_table_rows by (auto split: if_splits)

lemma no_space_no_keywords:
  assumes "32 \<notin> set s"
  shows "\<not> spanish_keywords s" "\<not> french_keywords s" "\<not> german_keywords s"
    "\<not> italian_keywords s" "\<not> portuguese_keywords s"
proof -
  have "\<not> found s lit" if "32 \<in> set (cstr lit)" for lit
    using found_needs_space [OF _ that] assms by blast
  then show "\<not> spanish_keywords s" "\<not> french_keywords s" "\<not> german_keywords s"
    "\<not> italian_keywords s" "\<not> portuguese_keywords s"
    by (simp_all add: spanish_keywords_def french_keywords_def german_keywords_def
        italian_keywords_def portuguese_keywords_def cstr_def)
qed

lemma no_space_first_match:
  assumes "32 \<notin> set s"
  shows "spec_first_match spec_keyword_table s = None"
  using no_space_no_keywords [OF assms]
  unfolding spec_table_rows by (simp add: keywords_spec)

subsection \<open>The whole call\<close>

lemma detect_text:
  assumes "GetStringUTFChars env (Some j) = Some t"
  shows "fst (nativeDetectLanguage sg env h (Some j) log) =
     (if exceeds_tenth (count_accents sg (transform_tolower sg t)) (length (transform_tolower sg t))
         \<and> keyword_cascade (transform_tolower sg t) = cstr ''en''
      then cstr ''mul'' else keyword_cascade (transform_tolower sg t))"
  using assms by (simp add: nativeDetectLanguage_def Let_def)

lemma detect_result_ignores_log:
  "fst (nativeDetectLanguage sg env h jtext log) = fst (nativeDetectLanguage sg env h jtext log')"
  by (simp add: nativeDetectLanguage_def Let_def split: option.split)

text \<open>Rules that evaluate the model on a concrete text.\<close>

lemmas eval_text =
  string_env_def transform_tolower_eq cstr_def non_ascii_count_def
  spec_keyword_table_def spec_keywords_for_def spec_language_matches_def space_delimited_def
  sublist_code

subsection \<open>The ratio rule while the counter is in range\<close>

text \<open>
  For a text whose characters are delivered, in which no language's keyword matches and
  which has fewer than \<open>2^31\<close> non-ASCII code units, \<open>detect\<close> returns \<open>mul\<close>
  when the non-ASCII code units are more than one tenth of the length of the lower-cased
  text, and \<open>en\<close> otherwise; the empty string yields \<open>en\<close>. Lower-casing changes
  neither the length nor the count.
\<close>

lemma threshold_in_range:
  assumes "GetStringUTFChars env (Some j) = Some t"
  shows "(spec_first_match spec_keyword_table (transform_tolower sg t) = None
            \<and> non_ascii_count (transform_tolower sg t) < 2 ^ 31 \<longrightarrow>
          fst (nativeDetectLanguage sg env h (Some j) log) =
            (if length (transform_tolower sg t) < 10 * non_ascii_count (transform_tolower sg t)
             then cstr ''mul'' else cstr ''en''))
    \<and> (t = [] \<longrightarrow> fst (nativeDetectLanguage sg env h (Some j) log) = cstr ''en'')
    \<and> length (transform_tolower sg t) = length t
    \<and> non_ascii_count (transform_tolower sg t) = non_ascii_count t"
proof -
  let ?l = "transform_tolower sg t"
  have main: "fst (nativeDetectLanguage sg env h (Some j) log) =
      (if length ?l < 10 * non_ascii_count ?l then cstr ''mul'' else cstr ''en'')"
    if none: "spec_first_match spec_keyword_table ?l = None" and small: "non_ascii_count ?l < 2 ^ 31"
  proof -
    have "keyword_cascade ?l = cstr ''en''"
      using none by (simp add: keyword_cascade_spec)
    then show ?thesis
      unfolding detect_text [OF assms] ratio_test [OF small] by simp
  qed
  have empty: "fst (nativeDetectLanguage sg env h (Some j) log) = cstr ''en''" if "t = []"
  proof -
    have l: "?l = []" using that by (simp add: transform_tolower_def)
    have "spec_first_match spec_keyword_table [] = None"
      by (simp add: eval_text)
    moreover have "non_ascii_count [] < 2 ^ 31"
      by (simp add: non_ascii_count_def)
    ultimately show ?thesis
      using main unfolding l by (simp add: non_ascii_count_def)
  qed
  show ?thesis
    using main empty by (simp add: length_transform_tolower non_ascii_count_lowered)
qed

lemma threshold_in_range_examples:
  "fst (nativeDetectLanguage False string_env 0 (Some []) []) = cstr ''en''
   \<and> fst (nativeDetectLanguage False string_env 0 (Some [195, 169, 195, 160, 195, 188]) [])
        = cstr ''mul''
   \<and> fst (nativeDetectLanguage False string_env 0 (Some (cstr ''Cafe noir'' @ [233])) [])
        = cstr ''en''
   \<and> fst (nativeDetectLanguage False string_env 0 (Some (cstr ''Caf noir'' @ [233])) [])
        = cstr ''mul''
   \<and> fst (nativeDetectLanguage False string_env 0 (Some (replicate 50 195)) [])
        = cstr ''mul''"
proof -
  have env: "GetStringUTFChars string_env (Some s) = Some s" for s
    by (simp add: string_env_def)
  have a: "spec_first_match spec_keyword_table
        (transform_tolower False [195, 169, 195, 160, 195, 188]) = None
      \<and> non_ascii_count (transform_tolower False [195, 169, 195, 160, 195, 188]) = 6
      \<and> length (transform_tolower False [195, 169, 195, 160, 195, 188]) = 6"
    by (simp add: eval_text)
  have b: "spec_first_match spec_keyword_table
        (transform_tolower False (cstr ''Cafe noir'' @ [233])) = None
      \<and> non_ascii_count (transform_tolower False (cstr ''Cafe noir'' @ [233])) = 1
      \<and> length (transform_tolower False (cstr ''Cafe noir'' @ [233])) = 10"
    by (simp add: eval_text)
  have c: "spec_first_match spec_keyword_table
        (transform_tolower False (cstr ''Caf noir'' @ [233])) = None
      \<and> non_ascii_count (transform_tolower False (cstr ''Caf noir'' @ [233])) = 1
      \<and> length (transform_tolower False (cstr ''Caf noir'' @ [233])) = 9"
    by (simp add: eval_text)
  have d: "spec_first_match spec_keyword_table (transform_tolower False (replicate 50 195)) = None
      \<and> non_ascii_count (transform_tolower False (replicate 50 195)) = 50
      \<and> length (transform_tolower False (replicate 50 195)) = 50"
    by (simp add: no_space_first_match transform_tolower_eq non_ascii_count_def filter_replicate)
  show ?thesis
    using a b c d
      threshold_in_range [OF env [of "replicate 50 195"],
        where sg = False and h = "0" and log = "[]"]
      threshold_in_range [OF env [of "[]"],
        where sg = False and h = "0" and log = "[]"]
      threshold_in_range [OF env [of "[195, 169, 195, 160, 195, 188]"],
        where sg = False and h = "0" and log = "[]"]
      threshold_in_range [OF env [of "cstr ''Cafe noir'' @ [233]"],
        where sg = False and h = "0" and log = "[]"]
      threshold_in_range [OF env [of "cstr ''Caf noir'' @ [233]"],
        where sg = False and h = "0" and log = "[]"]
    by simp
qed

subsection \<open>A text that overflows the counter\<close>

lemma set_repeated: "set (concat (replicate n xs)) \<subseteq> set xs"
  by (induction n) auto

lemma length_repeated: "length (concat (replicate n [a, b])) = 2 * n"
  by (induction n) simp_all

lemma non_ascii_count_repeated:
  "non_ascii_count (concat (replicate n [195, 169])) = 2 * n"
  by (induction n) (simp_all add: non_ascii_count_def)

lemma overflow_text_facts:
  "32 \<notin> set overflow_text" "length overflow_text = 2 ^ 31"
  "non_ascii_count overflow_text = 2 ^ 31"
proof -
  show "32 \<notin> set overflow_text"
    using set_repeated [of "2 ^ 30" "[195, 169]"] by (auto simp: overflow_text_def)
  show "length overflow_text = 2 ^ 31"
    by (simp add: overflow_text_def length_repeated)
  show "non_ascii_count overflow_text = 2 ^ 31"
    by (simp add: overflow_text_def non_ascii_count_repeated)
qed

text \<open>After \<open>2^31\<close> increments the counter reads as the least \<open>int\<close>.\<close>

lemma count_accents_overflow:
  "sint (count_accents sg (transform_tolower sg overflow_text)) = - (2 ^ 31)"
  by (simp add: count_accents_non_ascii_count non_ascii_count_lowered overflow_text_facts)

lemma not_exceeds_negative:
  assumes "sint a < 0"
  shows "\<not> exceeds_tenth a n"
proof -
  have "sint a * 2 ^ 55 < 0"
    using assms by (simp add: mult_less_0_iff)
  moreover have "0 \<le> int (length_times_tenth n)"
    by simp
  ultimately show ?thesis
    unfolding exceeds_tenth_def by linarith
qed

lemma detect_overflow_text:
  assumes "GetStringUTFChars env (Some j) = Some overflow_text"
  shows "fst (nativeDetectLanguage sg env h (Some j) log) = cstr ''en''"
proof -
  have "keyword_cascade (transform_tolower sg overflow_text) = cstr ''en''"
    using no_space_no_keywords [OF no_space_lowered [OF overflow_text_facts(1), of sg]]
    by (simp add: keyword_cascade_def)
  moreover have "\<not> exceeds_tenth (count_accents sg (transform_tolower sg overflow_text)) n" for n
    by (rule not_exceeds_negative) (simp add: count_accents_overflow)
  ultimately show ?thesis
    unfolding detect_text [OF assms] by simp
qed

section \<open>The claims\<close>

text \<open>
  Claim C1. For a text whose characters are delivered, the languages are tried in the
  order Spanish, French, German, Italian, Portuguese, and \<open>detect\<close> returns the code of
  the first one with a keyword occurring space-delimited in the lower-cased text; later
  languages are not consulted. In particular a text containing both \<open>" el "\<close> and
  \<open>" der "\<close> is classified \<open>es\<close>.
\<close>

theorem first_language_wins:
  assumes "GetStringUTFChars env (Some j) = Some t"
  shows "(spec_first_match spec_keyword_table (transform_tolower sg t) = Some code \<longrightarrow>
            fst (nativeDetectLanguage sg env h (Some j) log) = cstr code)
    \<and> (space_delimited ''el'' (transform_tolower sg t) \<and>
          space_delimited ''der'' (transform_tolower sg t) \<longrightarrow>
            fst (nativeDetectLanguage sg env h (Some j) log) = cstr ''es'')
    \<and> (sublist (cstr '' el '') t \<and> sublist (cstr '' der '') t \<longrightarrow>
            fst (nativeDetectLanguage sg env h (Some j) log) = cstr ''es'')"
proof -
  let ?l = "transform_tolower sg t"
  have first: "fst (nativeDetectLanguage sg env h (Some j) log) = cstr code"
    if "spec_first_match spec_keyword_table ?l = Some code" for code
  proof -
    have "keyword_cascade ?l = cstr code"
      using that by (simp add: keyword_cascade_spec)
    moreover have "cstr code \<noteq> cstr ''en''"
      using spec_first_match_code [OF that] by (auto simp: cstr_def)
    ultimately show ?thesis
      unfolding detect_text [OF assms] by simp
  qed
  have el: "fst (nativeDetectLanguage sg env h (Some j) log) = cstr ''es''"
    if "space_delimited ''el'' ?l"
  proof -
    have "spec_language_matches (spec_keywords_for ''es'') ?l"
      using that by (simp add: spec_language_matches_def spec_keywords_for_def spec_keyword_table_def)
    then have "spec_first_match spec_keyword_table ?l = Some ''es''"
      unfolding spec_table_rows by simp
    then show ?thesis by (rule first)
  qed
  have raw: "space_delimited ''el'' ?l" if "sublist (cstr '' el '') t"
  proof -
    have "sublist (transform_tolower sg (cstr '' el '')) ?l"
      unfolding transform_tolower_def by (rule sublist_map [OF that])
    then show ?thesis
      by (simp add: space_delimited_def transform_tolower_eq cstr_def)
  qed
  show ?thesis
    using first el raw by blast
qed

theorem first_language_wins_witness:
  "fst (nativeDetectLanguage True string_env 1 (Some (cstr ''Veo el perro, der Hund ist da'')) [])
     = cstr ''es''
   \<and> fst (nativeDetectLanguage True string_env 1 (Some (cstr ''El perro y el gato'')) [])
     = cstr ''es''
   \<and> fst (nativeDetectLanguage True string_env 1 (Some (cstr ''Le chat et le chien'')) [])
     = cstr ''fr''
   \<and> fst (nativeDetectLanguage True string_env 1 (Some (cstr ''Der Hund und die Katze'')) [])
     = cstr ''de''
   \<and> fst (nativeDetectLanguage True string_env 1 (Some (cstr ''Questo non lo so'')) [])
     = cstr ''it''
   \<and> fst (nativeDetectLanguage True string_env 1 (Some (cstr ''Isto foi para ti'')) [])
     = cstr ''pt''"
proof -
  have env: "GetStringUTFChars string_env (Some s) = Some s" for s
    by (simp add: string_env_def)
  have es: "sublist (cstr '' el '') (cstr ''Veo el perro, der Hund ist da'')
      \<and> sublist (cstr '' der '') (cstr ''Veo el perro, der Hund ist da'')"
    by (simp add: eval_text)
  have es': "spec_first_match spec_keyword_table
      (transform_tolower True (cstr ''El perro y el gato'')) = Some ''es''"
    by (simp add: eval_text)
  have fr: "spec_first_match spec_keyword_table
      (transform_tolower True (cstr ''Le chat et le chien'')) = Some ''fr''"
    by (simp add: eval_text)
  have de: "spec_first_match spec_keyword_table
      (transform_tolower True (cstr ''Der Hund und die Katze'')) = Some ''de''"
    by (simp add: eval_text)
  have it: "spec_first_match spec_keyword_table
      (transform_tolower True (cstr ''Questo non lo so'')) = Some ''it''"
    by (simp add: eval_text)
  have pt: "spec_first_match spec_keyword_table
      (transform_tolower True (cstr ''Isto foi para ti'')) = Some ''pt''"
    by (simp add: eval_text)
  show ?thesis
    using es es' fr de it pt
      first_language_wins [OF env, where sg = True and h = "1" and log = "[]"]
    by blast
qed

text \<open>
  Claim C2. \<open>detect\<close> returns \<open>und\<close> exactly when the text is null or its characters
  cannot be obtained. A null text yields \<open>und\<close> at once, with nothing logged; every
  other text yields one of \<open>es\<close>, \<open>fr\<close>, \<open>de\<close>, \<open>it\<close>, \<open>pt\<close>, \<open>en\<close>, \<open>mul\<close>.
\<close>

theorem und_iff_unavailable:
  "(fst (nativeDetectLanguage sg env h jtext log) = cstr ''und''
      \<longleftrightarrow> jtext = None \<or> GetStringUTFChars env jtext = None)
   \<and> nativeDetectLanguage sg env h None log = (cstr ''und'', log)
   \<and> (jtext \<noteq> None \<and> GetStringUTFChars env jtext \<noteq> None \<longrightarrow>
        fst (nativeDetectLanguage sg env h jtext log) \<in>
          {cstr ''es'', cstr ''fr'', cstr ''de'', cstr ''it'', cstr ''pt'', cstr ''en'', cstr ''mul''})"
proof -
  have null: "nativeDetectLanguage sg env h None log = (cstr ''und'', log)"
    by (simp add: nativeDetectLanguage_def)
  have fail: "fst (nativeDetectLanguage sg env h jtext log) = cstr ''und''"
    if "jtext = None \<or> GetStringUTFChars env jtext = None"
    using that by (auto simp: nativeDetectLanguage_def)
  have ok: "fst (nativeDetectLanguage sg env h jtext log) \<in>
          {cstr ''es'', cstr ''fr'', cstr ''de'', cstr ''it'', cstr ''pt'', cstr ''en'', cstr ''mul''}"
    if "jtext \<noteq> None" "GetStringUTFChars env jtext \<noteq> None"
  proof -
    from that obtain j t where jt: "jtext = Some j" "GetStringUTFChars env (Some j) = Some t"
      by auto
    show ?thesis
      using keyword_cascade_cases [of "transform_tolower sg t"]
      unfolding jt(1) detect_text [OF jt(2)] by auto
  qed
  have "fst (nativeDetectLanguage sg env h jtext log) \<noteq> cstr ''und''"
    if "jtext \<noteq> None" "GetStringUTFChars env jtext \<noteq> None"
    using ok [OF that] cstr_codes_distinct by auto
  with null fail ok show ?thesis by blast
qed

theorem und_iff_unavailable_witness:
  "nativeDetectLanguage True string_env 7 None [] = (cstr ''und'', [])
   \<and> fst (nativeDetectLanguage True failing_env 7 (Some (cstr ''hola'')) []) = cstr ''und''
   \<and> fst (nativeDetectLanguage True string_env 7 (Some (cstr ''hola'')) []) \<noteq> cstr ''und''
   \<and> fst (nativeDetectLanguage True string_env 7 (Some (cstr ''hola'')) []) = cstr ''en''"
proof -
  have a: "GetStringUTFChars failing_env (Some (cstr ''hola'')) = None"
    by (simp add: failing_env_def)
  have b: "GetStringUTFChars string_env (Some (cstr ''hola'')) = Some (cstr ''hola'')"
    by (simp add: string_env_def)
  have c: "fst (nativeDetectLanguage True string_env 7 (Some (cstr ''hola'')) []) = cstr ''en''"
    by (simp add: detect_text string_env_def transform_tolower_eq keyword_cascade_def
        spanish_keywords_def french_keywords_def german_keywords_def italian_keywords_def
        portuguese_keywords_def found_def string_find_def cstr_def
        count_accents_eq exceeds_tenth_def)
  show ?thesis
    using a b c
      und_iff_unavailable [where sg = True and env = string_env and h = "7" and jtext = None
        and log = "[]"]
      und_iff_unavailable [where sg = True and env = failing_env and h = "7"
        and jtext = "Some (cstr ''hola'')" and log = "[]"]
      und_iff_unavailable [where sg = True and env = string_env and h = "7"
        and jtext = "Some (cstr ''hola'')" and log = "[]"]
    by simp
qed

text \<open>
  Claim C3. For a text whose characters are delivered and in which no language's keyword
  matches, \<open>detect\<close> is to return \<open>mul\<close> when the non-ASCII code units are more than
  one tenth of the length of the lower-cased text, and \<open>en\<close> otherwise. The code does
  so while \<open>accentCount\<close> is in range (\<open>threshold_in_range\<close>), but not for every
  text: \<open>overflow_text\<close> matches no keyword, all of its \<open>2^31\<close> code units are
  non-ASCII, and the code returns \<open>en\<close>, because the \<open>int\<close> counter has overflowed
  and reads as negative.
\<close>

theorem overflow_breaks_threshold:
  "spec_first_match spec_keyword_table (transform_tolower sg overflow_text) = None
   \<and> length (transform_tolower sg overflow_text) = 2 ^ 31
   \<and> non_ascii_count (transform_tolower sg overflow_text) = 2 ^ 31
   \<and> length (transform_tolower sg overflow_text)
        < 10 * non_ascii_count (transform_tolower sg overflow_text)
   \<and> sint (count_accents sg (transform_tolower sg overflow_text)) = - (2 ^ 31)
   \<and> fst (nativeDetectLanguage sg string_env h (Some overflow_text) log) = cstr ''en''"
proof -
  have "GetStringUTFChars string_env (Some overflow_text) = Some overflow_text"
    by (simp add: string_env_def)
  then have "fst (nativeDetectLanguage sg string_env h (Some overflow_text) log) = cstr ''en''"
    by (rule detect_overflow_text)
  moreover have "spec_first_match spec_keyword_table (transform_tolower sg overflow_text) = None"
    by (rule no_space_first_match [OF no_space_lowered [OF overflow_text_facts(1)]])
  ultimately show ?thesis
    by (simp add: count_accents_overflow length_transform_tolower non_ascii_count_lowered
        overflow_text_facts)
qed

theorem overflow_breaks_threshold_witness:
  "spec_first_match spec_keyword_table (transform_tolower True overflow_text) = None
   \<and> length (transform_tolower True overflow_text)
        < 10 * non_ascii_count (transform_tolower True overflow_text)
   \<and> fst (nativeDetectLanguage True string_env 0 (Some overflow_text) []) = cstr ''en''
   \<and> fst (nativeDetectLanguage True string_env 0 (Some overflow_text) []) \<noteq> cstr ''mul''"
  using overflow_breaks_threshold [of True 0 "[]"] cstr_codes_distinct
  by simp

text \<open>
  Claim C4. When the keyword cascade has set the result to one of \<open>es\<close>, \<open>fr\<close>,
  \<open>de\<close>, \<open>it\<close>, \<open>pt\<close>, the non-ASCII fallback leaves it alone: \<open>detect\<close> returns
  the cascade's code, however many non-ASCII code units the text has.
\<close>

theorem fallback_keeps_keyword_result:
  assumes "GetStringUTFChars env (Some j) = Some t"
    and "keyword_cascade (transform_tolower sg t) \<in>
           {cstr ''es'', cstr ''fr'', cstr ''de'', cstr ''it'', cstr ''pt''}"
  shows "fst (nativeDetectLanguage sg env h (Some j) log) = keyword_cascade (transform_tolower sg t)"
  using assms(2) cstr_codes_distinct unfolding detect_text [OF assms(1)] by auto

theorem fallback_keeps_keyword_result_witness:
  "fst (nativeDetectLanguage True string_env 0
       (Some ([195, 169, 195, 169] @ cstr '' el '' @ [195, 169, 195, 169, 195, 169])) [])
     = cstr ''es''
   \<and> non_ascii_count ([195, 169, 195, 169] @ cstr '' el '' @ [195, 169, 195, 169, 195, 169]) = 10
   \<and> length ([195, 169, 195, 169] @ cstr '' el '' @ [195, 169, 195, 169, 195, 169]) = 14"
proof -
  let ?t = "[195, 169, 195, 169] @ cstr '' el '' @ [195, 169, 195, 169, 195, 169]"
  have env: "GetStringUTFChars string_env (Some ?t) = Some ?t"
    by (simp add: string_env_def)
  have k: "keyword_cascade (transform_tolower True ?t) = cstr ''es''"
    unfolding keyword_cascade_spec by (simp add: eval_text)
  then have "keyword_cascade (transform_tolower True ?t) \<in>
      {cstr ''es'', cstr ''fr'', cstr ''de'', cstr ''it'', cstr ''pt''}"
    by simp
  from fallback_keeps_keyword_result [OF env this, of 0 "[]"] k
  show ?thesis
    by (simp add: non_ascii_count_def cstr_def)
qed

text \<open>
  Claim C5. Classification does not depend on the case of ASCII letters: two texts that
  differ only there are lower-cased to the same text and get the same code.
  Lower-casing adds 32 to the bytes \<open>A\<close> to \<open>Z\<close> and leaves every other byte,
  non-ASCII bytes among them, unchanged.
\<close>

theorem case_insensitive:
  assumes "GetStringUTFChars env (Some j) = Some t"
    and "GetStringUTFChars env (Some j') = Some t'"
    and "list_all2 same_up_to_case t t'"
  shows "fst (nativeDetectLanguage sg env h (Some j) log)
           = fst (nativeDetectLanguage sg env h' (Some j') log')
    \<and> transform_tolower sg t = transform_tolower sg t'
    \<and> transform_tolower sg t = map (\<lambda>c. if is_upper c then c + 32 else c) t"
proof -
  have same: "transform_tolower sg t = transform_tolower sg t'"
    by (rule transform_tolower_variant [OF assms(3)])
  have "fst (nativeDetectLanguage sg env h (Some j) log)
      = fst (nativeDetectLanguage sg env h' (Some j') log')"
    unfolding detect_text [OF assms(1)] detect_text [OF assms(2)] same ..
  moreover have "transform_tolower sg t = map (\<lambda>c. if is_upper c then c + 32 else c) t"
    by (simp add: transform_tolower_eq is_upper_def)
  ultimately show ?thesis
    using same by simp
qed

theorem case_insensitive_witness:
  "fst (nativeDetectLanguage True string_env 0 (Some (cstr ''El gato'')) [])
     = fst (nativeDetectLanguage True string_env 0 (Some (cstr ''el gato'')) [])
   \<and> fst (nativeDetectLanguage True string_env 0 (Some (cstr ''El gato'')) [])
     = fst (nativeDetectLanguage True string_env 0 (Some (cstr ''EL GATO'')) [])
   \<and> fst (nativeDetectLanguage True string_env 0 (Some (cstr ''Y EL GATO ES'')) [])
     = fst (nativeDetectLanguage True string_env 0 (Some (cstr ''y el gato es'')) [])
   \<and> transform_tolower True (cstr ''EL GATO'' @ [195, 137]) = cstr ''el gato'' @ [195, 137]"
proof -
  have env: "GetStringUTFChars string_env (Some s) = Some s" for s
    by (simp add: string_env_def)
  have a: "list_all2 same_up_to_case (cstr ''El gato'') (cstr ''el gato'')"
    by (simp add: cstr_def same_up_to_case_def is_upper_def)
  have b: "list_all2 same_up_to_case (cstr ''El gato'') (cstr ''EL GATO'')"
    by (simp add: cstr_def same_up_to_case_def is_upper_def)
  have c: "list_all2 same_up_to_case (cstr ''Y EL GATO ES'') (cstr ''y el gato es'')"
    by (simp add: cstr_def same_up_to_case_def is_upper_def)
  have d: "transform_tolower True (cstr ''EL GATO'' @ [195, 137]) = cstr ''el gato'' @ [195, 137]"
    by (simp add: eval_text)
  show ?thesis
    using d
      case_insensitive [OF env env a, of True 0 "[]" 0 "[]"]
      case_insensitive [OF env env b, of True 0 "[]" 0 "[]"]
      case_insensitive [OF env env c, of True 0 "[]" 0 "[]"]
    by simp
qed

text \<open>
  Claim C6. A keyword matches only where it occurs with a space on both sides: every
  test of the code is the search for a literal that starts and ends with a space, a
  literal is found exactly when it occurs contiguously, and a language's branch is taken
  exactly when one of its keywords occurs as space, keyword, space. So \<open>el\<close> inside
  \<open>model\<close>, or at the very start or end of the text, does not match.
\<close>

theorem keyword_needs_both_spaces:
  "(found t lit \<longleftrightarrow> (\<exists>pre post. t = pre @ cstr lit @ post))
   \<and> (space_delimited kw t \<longleftrightarrow> (\<exists>pre post. t = pre @ [32] @ cstr kw @ [32] @ post))
   \<and> (spanish_keywords t \<longleftrightarrow> list_ex (\<lambda>kw. space_delimited kw t) (spec_keywords_for ''es''))
   \<and> (french_keywords t \<longleftrightarrow> list_ex (\<lambda>kw. space_delimited kw t) (spec_keywords_for ''fr''))
   \<and> (german_keywords t \<longleftrightarrow> list_ex (\<lambda>kw. space_delimited kw t) (spec_keywords_for ''de''))
   \<and> (italian_keywords t \<longleftrightarrow> list_ex (\<lambda>kw. space_delimited kw t) (spec_keywords_for ''it''))
   \<and> (portuguese_keywords t \<longleftrightarrow> list_ex (\<lambda>kw. space_delimited kw t) (spec_keywords_for ''pt''))"
  using keywords_spec [of t]
  by (simp add: found_iff_occurs spec_language_matches_def space_delimited_def sublist_def)

theorem keyword_needs_both_spaces_witness:
  "\<not> spanish_keywords (cstr ''model'')
   \<and> \<not> spanish_keywords (cstr ''el gato'')
   \<and> \<not> spanish_keywords (cstr ''gato el'')
   \<and> \<not> spanish_keywords (cstr ''gato el.'')
   \<and> spanish_keywords (cstr ''un gato el otro'')
   \<and> \<not> german_keywords (cstr ''wunder und'')
   \<and> keyword_cascade (cstr ''model'') = cstr ''en''"
proof -
  have k: "keyword_cascade (cstr ''model'') = cstr ''en''"
    unfolding keyword_cascade_spec by (simp add: eval_text)
  show ?thesis
    using k
      keyword_needs_both_spaces [of "cstr ''model''"]
      keyword_needs_both_spaces [of "cstr ''el gato''"]
      keyword_needs_both_spaces [of "cstr ''gato el''"]
      keyword_needs_both_spaces [of "cstr ''gato el.''"]
      keyword_needs_both_spaces [of "cstr ''un gato el otro''"]
      keyword_needs_both_spaces [of "cstr ''wunder und''"]
    by (simp add: eval_text)
qed

text \<open>
  Claim C7. \<open>release\<close> has no error path and changes nothing but the log, to which it
  appends a record when the handle is not zero. Whatever the handles, \<open>detect\<close>
  returns the same code after one release as without it, and after two releases as
  after one.
\<close>

theorem release_leaves_detect_unchanged:
  "fst (nativeDetectLanguage sg env h jtext (nativeRelease hr log))
     = fst (nativeDetectLanguage sg env h jtext log)
   \<and> fst (nativeDetectLanguage sg env h jtext (nativeRelease hr (nativeRelease hr log)))
     = fst (nativeDetectLanguage sg env h jtext (nativeRelease hr log))
   \<and> nativeRelease 0 log = log
   \<and> prefix log (nativeRelease hr log)"
proof -
  have "prefix log (nativeRelease hr log)"
    by (simp add: nativeRelease_def LOGI_def)
  moreover have "nativeRelease 0 log = log"
    by (simp add: nativeRelease_def)
  ultimately show ?thesis
    using detect_result_ignores_log by blast
qed

theorem release_leaves_detect_unchanged_witness:
  "fst (nativeDetectLanguage True string_env 5 (Some (cstr ''Le chat et le chien''))
      (nativeRelease 5 [])) = cstr ''fr''
   \<and> fst (nativeDetectLanguage True string_env 9 (Some (cstr ''Le chat et le chien''))
      (nativeRelease 5 (nativeRelease 5 []))) = cstr ''fr''
   \<and> fst (nativeDetectLanguage True string_env 5 (Some (cstr ''Le chat et le chien''))
      (nativeRelease 0 [])) = cstr ''fr''
   \<and> nativeRelease 0 [] = []"
proof -
  have env: "GetStringUTFChars string_env (Some s) = Some s" for s
    by (simp add: string_env_def)
  have "keyword_cascade (transform_tolower True (cstr ''Le chat et le chien'')) = cstr ''fr''"
    unfolding keyword_cascade_spec by (simp add: eval_text)
  then have fr: "fst (nativeDetectLanguage True string_env h (Some (cstr ''Le chat et le chien'')) [])
      = cstr ''fr''" for h
    unfolding detect_text [OF env] by (simp add: cstr_def)
  show ?thesis
    using fr [of 5] fr [of 9]
      release_leaves_detect_unchanged [where sg = True and env = string_env and h = "5"
        and jtext = "Some (cstr ''Le chat et le chien'')" and hr = "5" and log = "[]"]
      release_leaves_detect_unchanged [where sg = True and env = string_env and h = "9"
        and jtext = "Some (cstr ''Le chat et le chien'')" and hr = "5" and log = "[]"]
      release_leaves_detect_unchanged [where sg = True and env = string_env and h = "5"
        and jtext = "Some (cstr ''Le chat et le chien'')" and hr = "0" and log = "[]"]
    by simp
qed

text \<open>
  Claim C8. \<open>getVersion\<close> returns the fixed string \<open>"1.2.0"\<close>. \<open>initialize\<close>
  tests for a null hint on the characters \<open>GetStringUTFChars\<close> answers for it: when
  the answer is \<open>nullptr\<close>, as for a null reference, it returns the empty string and
  logs nothing; whenever characters are delivered it returns \<open>"1.2.0"\<close>, whatever
  the characters are.
\<close>

theorem version_and_initialize:
  "nativeGetVersion = cstr ''1.2.0''
   \<and> (GetStringUTFChars env modelPath = None \<longrightarrow>
        nativeInitialize env modelPath log = (cstr '''', log))
   \<and> (GetStringUTFChars env modelPath = Some path \<longrightarrow>
        fst (nativeInitialize env modelPath log) = cstr ''1.2.0'')"
  by (simp add: nativeGetVersion_def nativeInitialize_def)

theorem version_and_initialize_witness:
  "nativeGetVersion = [49, 46, 50, 46, 48]
   \<and> nativeInitialize string_env None [] = ([], [])
   \<and> fst (nativeInitialize string_env (Some (cstr ''/no/such model?'')) []) = [49, 46, 50, 46, 48]"
proof -
  have n: "GetStringUTFChars string_env None = None"
    by (simp add: string_env_def)
  have s: "GetStringUTFChars string_env (Some (cstr ''/no/such model?'')) = Some (cstr ''/no/such model?'')"
    by (simp add: string_env_def)
  show ?thesis
    using n s
      version_and_initialize [where env = string_env and modelPath = None and log = "[]"]
      version_and_initialize [where env = string_env and modelPath = "Some (cstr ''/no/such model?'')"
        and path = "cstr ''/no/such model?''" and log = "[]"]
    by (simp add: cstr_def)
qed

text \<open>
  Claim C9. The result of \<open>detect\<close> does not depend on the handle: for any two handles
  the call returns the same code (and leaves the same log).
\<close>

theorem detect_ignores_handle:
  "nativeDetectLanguage sg env ha jtext log = nativeDetectLanguage sg env hb jtext log"
  by (simp add: nativeDetectLanguage_def)

theorem detect_ignores_handle_witness:
  "nativeDetectLanguage False string_env 0 (Some (cstr ''Der Hund und die Katze'')) []
     = nativeDetectLanguage False string_env 42 (Some (cstr ''Der Hund und die Katze'')) []
   \<and> fst (nativeDetectLanguage False string_env 42 (Some (cstr ''Der Hund und die Katze'')) []) = cstr ''de''"
proof -
  have "fst (nativeDetectLanguage False string_env 0 (Some (cstr ''Der Hund und die Katze'')) []) = cstr ''de''"
    by (simp add: detect_text string_env_def transform_tolower_eq keyword_cascade_def
        spanish_keywords_def french_keywords_def german_keywords_def found_def string_find_def cstr_def)
  then show ?thesis
    using detect_ignores_handle [where sg = False and env = string_env and ha = "0" and hb = "42"
        and jtext = "Some (cstr ''Der Hund und die Katze'')" and log = "[]"]
    by simp
qed




end
